theory Spec2Isabelle
  imports Main "HOL-Library.Char_ord" "HOL-Library.List_Lexorder"
begin

section \<open>Directory monitor: a shallow embedding of main.py\<close>

text \<open>
  The program keeps two module-level variables, \<^verbatim>\<open>dir_db\<close> (directory name to
  snapshot, a snapshot being a dict from file path to hex digest) and \<^verbatim>\<open>change_log\<close>
  (a list of strings), plus the watchdog \<^verbatim>\<open>observer\<close>. Every operation is modelled
  as a function from the environment (the file system and the hash library) and the
  current state to an outcome and the state afterwards. An exception is the \<open>Inl\<close>
  branch of the outcome; the state is returned in both branches, so that what an
  operation has mutated before raising stays visible.
\<close>

subsection \<open>Python dictionaries\<close>

text \<open>
  A Python dict keeps its keys in insertion order, and \<^verbatim>\<open>next(iter(d))\<close> reads the
  first of them, so a dict is an association list. \<^verbatim>\<open>d[k] = v\<close> overwrites the value
  of an existing key where it stands and appends a new key at the end.
\<close>

type_synonym ('k, 'v) dict = "('k \<times> 'v) list"

definition dict_keys :: "('k, 'v) dict \<Rightarrow> 'k list" where
  "dict_keys d = map fst d"

definition dict_get :: "('k, 'v) dict \<Rightarrow> 'k \<Rightarrow> 'v option" where
  "dict_get d k = map_of d k"

definition dict_contains :: "('k, 'v) dict \<Rightarrow> 'k \<Rightarrow> bool" where
  "dict_contains d k = (dict_get d k \<noteq> None)"

fun dict_set :: "('k, 'v) dict \<Rightarrow> 'k \<Rightarrow> 'v \<Rightarrow> ('k, 'v) dict" where
  "dict_set [] k v = [(k, v)]"
| "dict_set ((k', v') # d) k v =
     (if k' = k then (k, v) # d else (k', v') # dict_set d k v)"

subsection \<open>os.path on POSIX\<close>

text \<open>
  \<^verbatim>\<open>os.path.dirname\<close>, \<^verbatim>\<open>os.path.basename\<close> and \<^verbatim>\<open>os.path.normpath\<close> are
  library functions; they are written out here as posixpath defines them.
  \<^verbatim>\<open>dirname\<close> cuts after the last slash and strips the trailing slashes of the head
  unless the head consists of slashes only; \<^verbatim>\<open>basename\<close> is what follows the last
  slash.
\<close>

definition is_sep :: "char \<Rightarrow> bool" where
  "is_sep c = (c = CHR ''/'')"

definition path_head :: "string \<Rightarrow> string" where
  "path_head p = rev (dropWhile (\<lambda>c. \<not> is_sep c) (rev p))"

definition rstrip_sep :: "string \<Rightarrow> string" where
  "rstrip_sep s = rev (dropWhile is_sep (rev s))"

definition dirname :: "string \<Rightarrow> string" where
  "dirname p =
     (let head = path_head p
      in if head \<noteq> [] \<and> \<not> list_all is_sep head then rstrip_sep head else head)"

definition basename :: "string \<Rightarrow> string" where
  "basename p = rev (takeWhile (\<lambda>c. \<not> is_sep c) (rev p))"

fun split_sep :: "string \<Rightarrow> string list" where
  "split_sep [] = [[]]"
| "split_sep (c # cs) =
     (if is_sep c then [] # split_sep cs
      else (case split_sep cs of [] \<Rightarrow> [[c]] | w # ws \<Rightarrow> (c # w) # ws))"

fun join_sep :: "string list \<Rightarrow> string" where
  "join_sep [] = []"
| "join_sep [w] = w"
| "join_sep (w # ws) = w @ ''/'' @ join_sep ws"

definition initial_slashes :: "string \<Rightarrow> nat" where
  "initial_slashes p =
     (if take 1 p = ''/'' then
        (if take 2 p = ''//'' \<and> take 3 p \<noteq> ''///'' then 2 else 1)
      else 0)"

definition norm_step :: "nat \<Rightarrow> string list \<Rightarrow> string \<Rightarrow> string list" where
  "norm_step slashes new_comps part =
     (if part = [] \<or> part = ''.'' then new_comps
      else if part \<noteq> ''..'' \<or> (slashes = 0 \<and> new_comps = [])
              \<or> (new_comps \<noteq> [] \<and> last new_comps = ''..'')
      then new_comps @ [part]
      else if new_comps \<noteq> [] then butlast new_comps
      else new_comps)"

definition normpath :: "string \<Rightarrow> string" where
  "normpath p =
     (if p = [] then ''.''
      else
        let slashes = initial_slashes p;
            comps = foldl (norm_step slashes) [] (split_sep p);
            joined = replicate slashes CHR ''/'' @ join_sep comps
        in if joined = [] then ''.'' else joined)"

subsection \<open>The environment: file system, hash library, watchdog\<close>

text \<open>
  Bytes are lists of \<^typ>\<open>char\<close> (a \<^typ>\<open>char\<close> is one byte). The SHA-256 object of
  hashlib is a parameter: its initial state, \<^verbatim>\<open>update\<close> and \<^verbatim>\<open>hexdigest\<close>.

  The file system is read through the calls the program makes, fixed for the duration
  of one operation. Each call that can raise gives \<open>Inl\<close> of the message of the
  \<^verbatim>\<open>OSError\<close> it raises (\<^verbatim>\<open>PermissionError\<close> and \<^verbatim>\<open>FileNotFoundError\<close> are
  \<^verbatim>\<open>OSError\<close>s):
  \<^item> \<open>file_bytes p\<close>: the content that \<^verbatim>\<open>open(p, "rb")\<close> and the reads deliver;
  \<^item> \<open>isdir p\<close>: \<^verbatim>\<open>os.path.isdir(p)\<close>, which never raises;
  \<^item> \<open>rglob p\<close>: the sequence of \<^verbatim>\<open>str(q)\<close> for the \<^verbatim>\<open>q\<close> that
    \<^verbatim>\<open>Path(p).rglob('*')\<close> yields, and the error the generator raises after them, if
    any (pathlib swallows \<^verbatim>\<open>PermissionError\<close> while listing and lets other errors
    out);
  \<^item> \<open>is_file p\<close>: \<^verbatim>\<open>Path(p).is_file()\<close>, which returns \<^verbatim>\<open>False\<close> for a missing path
    and re-raises other errors of \<^verbatim>\<open>stat\<close>, such as a parent directory that may not
    be searched;
  \<^item> \<open>stat p\<close>: size and modification time from \<^verbatim>\<open>os.stat(p)\<close>;
  \<^item> \<open>schedule p\<close>: the error, if any, that \<^verbatim>\<open>observer.schedule\<close> raises when it
    sets up the watch of \<open>p\<close>.
\<close>

type_synonym bytes = "char list"

record 'h hasher =
  sha_init :: 'h
  sha_update :: "'h \<Rightarrow> bytes \<Rightarrow> 'h"
  sha_hexdigest :: "'h \<Rightarrow> string"

record ('h, 'm) env =
  sha256 :: "'h hasher"
  file_bytes :: "string \<Rightarrow> string + bytes"
  isdir :: "string \<Rightarrow> bool"
  rglob :: "string \<Rightarrow> string list \<times> string option"
  is_file :: "string \<Rightarrow> string + bool"
  stat :: "string \<Rightarrow> string + (nat \<times> 'm)"
  schedule :: "string \<Rightarrow> string option"

datatype error = HTTPException nat string | OSError string | AttributeError

text \<open>
  \<^verbatim>\<open>str(e)\<close> for an exception that reaches a \<^verbatim>\<open>print\<close>. Only an \<open>OSError\<close> of
  \<^verbatim>\<open>hash_file\<close> or \<^verbatim>\<open>os.stat\<close> does; the other two cases are never used.
\<close>

fun error_str :: "error \<Rightarrow> string" where
  "error_str (OSError msg) = msg"
| "error_str AttributeError = []"
| "error_str (HTTPException code detail) = detail"

subsection \<open>hash_file\<close>

text \<open>
  \<^verbatim>\<open>while chunk := f.read(8192): sha256.update(chunk)\<close>: each round reads at most
  8192 bytes of what is left of the file and stops at the first empty read.
\<close>

function hash_loop :: "'h hasher \<Rightarrow> bytes \<Rightarrow> 'h \<Rightarrow> 'h" where
  "hash_loop H rest acc =
     (if take 8192 rest \<noteq> [] then
        hash_loop H (drop 8192 rest) (sha_update H acc (take 8192 rest))
      else acc)"
  by pat_completeness auto
termination
  by (relation "measure (\<lambda>(H, rest, acc). length rest)") auto

declare hash_loop.simps [simp del]

definition hash_file :: "('h, 'm) env \<Rightarrow> string \<Rightarrow> error + string" where
  "hash_file e filepath =
     (case file_bytes e filepath of
        Inl msg \<Rightarrow> Inl (OSError msg)
      | Inr content \<Rightarrow>
          Inr (sha_hexdigest (sha256 e) (hash_loop (sha256 e) content (sha_init (sha256 e)))))"

subsection \<open>State\<close>

text \<open>
  \<open>observer\<close> is \<open>None\<close> until \<^verbatim>\<open>start_monitoring\<close> has run; afterwards it holds the
  watches scheduled so far, each a path and its \<^verbatim>\<open>recursive\<close> flag. \<open>stdout\<close> is
  what the program has printed, one entry for each \<^verbatim>\<open>print\<close>.
\<close>

type_synonym snapshot = "(string, string) dict"

record state =
  dir_db :: "(string, snapshot) dict"
  change_log :: "string list"
  observer :: "(string \<times> bool) list option"
  stdout :: "string list"

definition initial_state :: state where
  "initial_state = \<lparr>dir_db = [], change_log = [], observer = None, stdout = []\<rparr>"

definition start_monitoring :: "state \<Rightarrow> state" where
  "start_monitoring st = st\<lparr>observer := Some []\<rparr>"

subsection \<open>The scan loop of register and verify\<close>

text \<open>
  Both operations run the same loop over \<^verbatim>\<open>Path(dir_path).rglob('*')\<close>.
  \<^verbatim>\<open>filepath.is_file()\<close> stands outside the \<^verbatim>\<open>try\<close>: when it raises, the loop ends
  with that error. A regular file is hashed and entered under its path; any exception
  of \<^verbatim>\<open>hash_file\<close> is caught, a line is printed, and the loop goes on. The loop
  returns the error that ended it, if any, together with the dict as filled and the
  output as printed up to that point.
\<close>

definition skipping_line :: "string \<Rightarrow> error \<Rightarrow> string" where
  "skipping_line filepath err = ''Skipping '' @ filepath @ '': '' @ error_str err"

fun scan_items ::
  "('h, 'm) env \<Rightarrow> string list \<Rightarrow> snapshot \<Rightarrow> string list
     \<Rightarrow> error option \<times> snapshot \<times> string list" where
  "scan_items e [] snap out = (None, snap, out)"
| "scan_items e (filepath # rest) snap out =
     (case is_file e filepath of
        Inl msg \<Rightarrow> (Some (OSError msg), snap, out)
      | Inr regular \<Rightarrow>
          if regular then
            (case hash_file e filepath of
               Inr h \<Rightarrow> scan_items e rest (dict_set snap filepath h) out
             | Inl err \<Rightarrow> scan_items e rest snap (out @ [skipping_line filepath err]))
          else scan_items e rest snap out)"

definition scan_loop ::
  "('h, 'm) env \<Rightarrow> string \<Rightarrow> snapshot \<Rightarrow> string list
     \<Rightarrow> error option \<times> snapshot \<times> string list" where
  "scan_loop e dir_path snap out =
     (case rglob e dir_path of (items, failure) \<Rightarrow>
        (case scan_items e items snap out of
           (Some err, snap', out') \<Rightarrow> (Some err, snap', out')
         | (None, snap', out') \<Rightarrow> (map_option OSError failure, snap', out')))"

subsection \<open>register_directory\<close>

record register_result =
  r_status :: string
  r_directory :: string
  r_files_registered :: nat

text \<open>
  \<^verbatim>\<open>dir_db[dir_name] = {}\<close> installs a fresh dict and the loop fills that same
  object, so the entry of \<open>dir_name\<close> is the dict as the loop left it, also when the
  loop ended in an error. \<^verbatim>\<open>observer.schedule\<close> comes after the loop: with no
  observer it raises AttributeError, the catalog already updated.
\<close>

definition register_directory ::
  "('h, 'm) env \<Rightarrow> state \<Rightarrow> string \<Rightarrow> (error + register_result) \<times> state" where
  "register_directory e st dir_path0 =
     (let dir_path = normpath dir_path0
      in if \<not> isdir e dir_path then
           (Inl (HTTPException 400 ''Invalid directory path''), st)
         else
           let dir_name = basename dir_path
           in (case scan_loop e dir_path [] (stdout st) of (raised, snap, out) \<Rightarrow>
                 let st1 = st\<lparr>dir_db := dict_set (dir_db st) dir_name snap, stdout := out\<rparr>
                 in (case raised of
                       Some err \<Rightarrow> (Inl err, st1)
                     | None \<Rightarrow>
                         (case observer st1 of
                            None \<Rightarrow>
                              (Inl AttributeError, st1)
                          | Some watches \<Rightarrow>
                              (case schedule e dir_path of
                                 Some msg \<Rightarrow> (Inl (OSError msg), st1)
                               | None \<Rightarrow>
                                   (Inr \<lparr>r_status = ''success'', r_directory = dir_path,
                                         r_files_registered = length snap\<rparr>,
                                    st1\<lparr>observer :=
                                          Some (watches @ [(dir_path, True)])\<rparr>))))))"

subsection \<open>verify_changes\<close>

record verify_result =
  v_directory :: string
  v_added :: "string list"
  v_deleted :: "string list"
  v_modified :: "string list"
  v_recent_changes :: "string list"

definition added_files :: "snapshot \<Rightarrow> snapshot \<Rightarrow> string list" where
  "added_files original current =
     filter (\<lambda>f. \<not> dict_contains original f) (dict_keys current)"

definition deleted_files :: "snapshot \<Rightarrow> snapshot \<Rightarrow> string list" where
  "deleted_files original current =
     filter (\<lambda>f. \<not> dict_contains current f) (dict_keys original)"

definition modified_files :: "snapshot \<Rightarrow> snapshot \<Rightarrow> string list" where
  "modified_files original current =
     filter (\<lambda>f. dict_contains original f \<and> dict_get current f \<noteq> dict_get original f)
       (dict_keys current)"

text \<open>\<^verbatim>\<open>change_log[-10:]\<close>: the last ten entries, all of them when there are fewer.\<close>

definition last_ten :: "'a list \<Rightarrow> 'a list" where
  "last_ten xs = drop (length xs - 10) xs"

definition first_key :: "snapshot \<Rightarrow> string" where
  "first_key original = (case original of [] \<Rightarrow> [] | (k, v) # rest \<Rightarrow> k)"

definition verify_dir_path :: "snapshot \<Rightarrow> string" where
  "verify_dir_path original =
     (let dir_path = first_key original
      in if dir_path \<noteq> [] then dirname dir_path else [])"

text \<open>
  The rescan fills the local dict \<^verbatim>\<open>current\<close>; when the loop ends in an error,
  \<^verbatim>\<open>dir_db\<close> is as it was and only the printed lines remain.
\<close>

definition verify_changes ::
  "('h, 'm) env \<Rightarrow> state \<Rightarrow> string \<Rightarrow> (error + verify_result) \<times> state" where
  "verify_changes e st dir_name =
     (case dict_get (dir_db st) dir_name of
        None \<Rightarrow> (Inl (HTTPException 404 ''Directory not registered''), st)
      | Some original \<Rightarrow>
          let dir_path = verify_dir_path original
          in (case scan_loop e dir_path [] (stdout st) of
                (Some err, partial, out) \<Rightarrow> (Inl err, st\<lparr>stdout := out\<rparr>)
              | (None, current, out) \<Rightarrow>
                  (Inr \<lparr>v_directory = dir_path,
                        v_added = added_files original current,
                        v_deleted = deleted_files original current,
                        v_modified = modified_files original current,
                        v_recent_changes = last_ten (change_log st)\<rparr>,
                   st\<lparr>dir_db := dict_set (dir_db st) dir_name current, stdout := out\<rparr>)))"

subsection \<open>list_files\<close>

record 'm file_detail =
  filename :: string
  path :: string
  hash :: string
  size_bytes :: nat
  last_modified :: 'm
  is_text :: bool

record 'm list_result =
  l_directory :: string
  l_total_files :: nat
  l_files :: "'m file_detail list"

datatype 'm list_response = ErrorObject string | Listing "'m list_result"

definition endswith :: "string \<Rightarrow> string \<Rightarrow> bool" where
  "endswith s suffix = (drop (length s - length suffix) s = suffix \<and> length suffix \<le> length s)"

text \<open>
  One round of the loop over \<^verbatim>\<open>dir_db[dir_name].items()\<close>: an entry whose
  \<^verbatim>\<open>os.stat\<close> raises is printed and left out.
\<close>

definition detail_step ::
  "('h, 'm) env \<Rightarrow> 'm file_detail list \<times> string list \<Rightarrow> string \<times> string
     \<Rightarrow> 'm file_detail list \<times> string list" where
  "detail_step e acc entry =
     (case acc of (file_details, out) \<Rightarrow>
        (case entry of (filepath, filehash) \<Rightarrow>
           (case stat e filepath of
              Inl msg \<Rightarrow> (file_details, out @ [skipping_line filepath (OSError msg)])
            | Inr (st_size, st_mtime) \<Rightarrow>
                (file_details @
                   [\<lparr>filename = basename filepath, path = filepath, hash = filehash,
                     size_bytes = st_size, last_modified = st_mtime,
                     is_text = (endswith filepath ''.txt'' \<or> endswith filepath ''.csv''
                                \<or> endswith filepath ''.json'' \<or> endswith filepath ''.xml'')\<rparr>],
                 out))))"

definition list_files ::
  "('h, 'm) env \<Rightarrow> state \<Rightarrow> string \<Rightarrow> (error + 'm list_response) \<times> state" where
  "list_files e st dir_name =
     (case dict_get (dir_db st) dir_name of
        None \<Rightarrow> (Inl (HTTPException 404 ''Directory not registered''), st)
      | Some snap \<Rightarrow>
          let dir_path = (case snap of [] \<Rightarrow> [] | (sample_file, v) # rest \<Rightarrow>
                            if sample_file \<noteq> [] then dirname sample_file else [])
          in if dir_path = [] then
               (Inr (ErrorObject ''No files found in directory''), st)
             else
               (case foldl (detail_step e) ([], stdout st) snap of (file_details, out) \<Rightarrow>
                  (Inr (Listing \<lparr>l_directory = dir_path,
                                  l_total_files = length file_details,
                                  l_files = sort_key filename file_details\<rparr>),
                   st\<lparr>stdout := out\<rparr>)))"

subsection \<open>ChangeHandler.on_modified\<close>

record event =
  is_directory :: bool
  src_path :: string

text \<open>
  The call of \<^verbatim>\<open>hash_file\<close> is not inside a \<^verbatim>\<open>try\<close>: its exception leaves
  \<^verbatim>\<open>on_modified\<close>. \<^verbatim>\<open>dict.get\<close> gives \<^verbatim>\<open>None\<close> for an unknown path, which differs
  from every digest.
\<close>

definition on_modified ::
  "('h, 'm) env \<Rightarrow> state \<Rightarrow> event \<Rightarrow> (error + unit) \<times> state" where
  "on_modified e st ev =
     (if \<not> is_directory ev then
        let filepath = src_path ev;
            dir_name = basename (dirname filepath)
        in (case dict_get (dir_db st) dir_name of
              None \<Rightarrow> (Inr (), st)
            | Some snap \<Rightarrow>
                (case hash_file e filepath of
                   Inl err \<Rightarrow> (Inl err, st)
                 | Inr new_hash \<Rightarrow>
                     if dict_get snap filepath \<noteq> Some new_hash then
                       (Inr (),
                        st\<lparr>change_log := change_log st @ [''MODIFIED: '' @ filepath],
                           dir_db := dict_set (dir_db st) dir_name
                                       (dict_set snap filepath new_hash)\<rparr>)
                     else (Inr (), st)))
      else (Inr (), st))"

subsection \<open>What a scan keeps\<close>

text \<open>
  A listed path is kept by the scan loop when \<^verbatim>\<open>is_file\<close> returns \<^verbatim>\<open>True\<close> for it
  and \<^verbatim>\<open>hash_file\<close> returns a digest. A listing can be scanned to its end when
  \<^verbatim>\<open>is_file\<close> raises for none of its paths.
\<close>

definition readable :: "('h, 'm) env \<Rightarrow> string \<Rightarrow> bool" where
  "readable e f = (is_file e f = Inr True \<and> \<not> isl (hash_file e f))"

definition listable :: "('h, 'm) env \<Rightarrow> string list \<Rightarrow> bool" where
  "listable e items = list_all (\<lambda>f. \<not> isl (is_file e f)) items"

subsection \<open>Example environments\<close>

text \<open>
  Concrete inputs for the closed statements below. The stand-in for SHA-256 appends the
  chunks it is fed and gives the accumulated bytes as the digest, so two files have the
  same digest exactly when they have the same content. \<open>mk_env\<close> builds a file system
  from its directories, its files (\<open>None\<close> for a file that exists but cannot be
  opened), the paths whose \<^verbatim>\<open>stat\<close> is denied, and the listing \<^verbatim>\<open>rglob\<close> gives for
  each path.

  \<open>proj_env a f\<close> is \<^verbatim>\<open>/tmp/proj\<close> holding \<^verbatim>\<open>a.txt\<close> with content \<open>a\<close>, a
  \<^verbatim>\<open>b.bin\<close> that cannot be opened, and a subdirectory that is also called
  \<^verbatim>\<open>proj\<close> holding \<^verbatim>\<open>f.txt\<close> with content \<open>f\<close>. \<open>proj_state\<close> is the state after
  registering \<^verbatim>\<open>/tmp/proj/\<close> in \<open>proj_env ''x'' ''old''\<close>. \<open>empty_env\<close> has an empty
  directory \<^verbatim>\<open>/tmp/empty\<close> and a file \<^verbatim>\<open>notes.txt\<close> in the working directory, which
  is what \<^verbatim>\<open>Path("")\<close> lists. \<open>subdirs_env x\<close> is \<^verbatim>\<open>/tmp/proj\<close> with two
  subdirectories of one file each and no file of its own; pathlib lists the entries of
  a directory before those of its subdirectories. \<open>locked_env\<close> is \<^verbatim>\<open>/tmp/proj\<close>
  holding a readable \<^verbatim>\<open>a.txt\<close> and a subdirectory \<^verbatim>\<open>locked\<close> that may be listed but
  not searched: its file \<^verbatim>\<open>s.txt\<close> is listed and \<^verbatim>\<open>is_file\<close> raises
  \<^verbatim>\<open>PermissionError\<close> for it.
\<close>

definition concat_hasher :: "bytes hasher" where
  "concat_hasher =
     \<lparr>sha_init = [], sha_update = (\<lambda>h chunk. h @ chunk), sha_hexdigest = (\<lambda>h. h)\<rparr>"

definition mk_env ::
  "string list \<Rightarrow> (string \<times> bytes option) list \<Rightarrow> string list
     \<Rightarrow> (string \<times> string list) list \<Rightarrow> (bytes, nat) env" where
  "mk_env dirs files denied listings =
     \<lparr>sha256 = concat_hasher,
      file_bytes = (\<lambda>p. case map_of files p of
                           Some (Some c) \<Rightarrow> Inr c
                         | Some None \<Rightarrow> Inl ''[Errno 13] Permission denied''
                         | None \<Rightarrow> Inl ''[Errno 2] No such file or directory''),
      isdir = (\<lambda>p. p \<in> set dirs),
      rglob = (\<lambda>p. case map_of listings p of None \<Rightarrow> ([], None) | Some l \<Rightarrow> (l, None)),
      is_file = (\<lambda>p. if p \<in> set denied then Inl ''[Errno 13] Permission denied''
                      else Inr (map_of files p \<noteq> None)),
      stat = (\<lambda>p. if p \<in> set denied then Inl ''[Errno 13] Permission denied''
                   else if p \<in> set dirs then Inr (4096, 0)
                   else (case map_of files p of
                           None \<Rightarrow> Inl ''[Errno 2] No such file or directory''
                         | Some None \<Rightarrow> Inr (0, 0)
                         | Some (Some c) \<Rightarrow> Inr (length c, 0))),
      schedule = (\<lambda>p. None)\<rparr>"

definition proj_env :: "bytes \<Rightarrow> bytes \<Rightarrow> (bytes, nat) env" where
  "proj_env a f =
     mk_env [''/tmp/proj'', ''/tmp/proj/proj'']
       [(''/tmp/proj/a.txt'', Some a), (''/tmp/proj/b.bin'', None),
        (''/tmp/proj/proj/f.txt'', Some f)]
       []
       [(''/tmp/proj'', [''/tmp/proj/a.txt'', ''/tmp/proj/b.bin'', ''/tmp/proj/proj'',
                        ''/tmp/proj/proj/f.txt'']),
        (''/tmp/proj/proj'', [''/tmp/proj/proj/f.txt''])]"

definition proj_state :: state where
  "proj_state =
     \<lparr>dir_db = [(''proj'', [(''/tmp/proj/a.txt'', ''x''), (''/tmp/proj/proj/f.txt'', ''old'')])],
      change_log = [],
      observer = Some [(''/tmp/proj'', True)],
      stdout = [''Skipping /tmp/proj/b.bin: [Errno 13] Permission denied'']\<rparr>"

definition busy_state :: state where
  "busy_state =
     proj_state\<lparr>change_log :=
       map (\<lambda>n. ''MODIFIED: /tmp/proj/'' @ n)
         [''a'', ''b'', ''c'', ''d'', ''e'', ''f'', ''g'', ''h'', ''i'', ''j'', ''k'', ''l'']\<rparr>"

definition empty_env :: "(bytes, nat) env" where
  "empty_env =
     mk_env [''/tmp/empty''] [(''notes.txt'', Some ''n'')] []
       [(''/tmp/empty'', []), ([], [''notes.txt''])]"

definition empty_state :: state where
  "empty_state =
     \<lparr>dir_db = [(''empty'', [])], change_log = [],
      observer = Some [(''/tmp/empty'', True)], stdout = []\<rparr>"

definition subdirs_env :: "bytes \<Rightarrow> (bytes, nat) env" where
  "subdirs_env x =
     mk_env [''/tmp/proj'', ''/tmp/proj/a'', ''/tmp/proj/b'']
       [(''/tmp/proj/a/x.txt'', Some x), (''/tmp/proj/b/y.txt'', Some ''y'')]
       []
       [(''/tmp/proj'', [''/tmp/proj/a'', ''/tmp/proj/b'', ''/tmp/proj/a/x.txt'',
                        ''/tmp/proj/b/y.txt'']),
        (''/tmp/proj/a'', [''/tmp/proj/a/x.txt'']),
        (''/tmp/proj/b'', [''/tmp/proj/b/y.txt''])]"

definition subdirs_state :: state where
  "subdirs_state =
     \<lparr>dir_db = [(''proj'', [(''/tmp/proj/a/x.txt'', ''x''), (''/tmp/proj/b/y.txt'', ''y'')])],
      change_log = [],
      observer = Some [(''/tmp/proj'', True)],
      stdout = []\<rparr>"

definition locked_env :: "(bytes, nat) env" where
  "locked_env =
     mk_env [''/tmp/proj'', ''/tmp/proj/locked'']
       [(''/tmp/proj/a.txt'', Some ''x''), (''/tmp/proj/locked/s.txt'', Some ''s'')]
       [''/tmp/proj/locked/s.txt'']
       [(''/tmp/proj'', [''/tmp/proj/a.txt'', ''/tmp/proj/locked'',
                        ''/tmp/proj/locked/s.txt''])]"

definition locked_state :: state where
  "locked_state =
     \<lparr>dir_db = [(''proj'', [(''/tmp/proj/a.txt'', ''x'')])],
      change_log = [],
      observer = Some [],
      stdout = []\<rparr>"

section \<open>Properties\<close>

subsection \<open>Dictionaries\<close>

lemma dict_contains_keys: "dict_contains d k \<longleftrightarrow> k \<in> set (dict_keys d)"
  by (simp add: dict_contains_def dict_get_def dict_keys_def map_of_eq_None_iff)

lemma dict_keys_Nil: "dict_keys [] = []"
  by (simp add: dict_keys_def)

lemma dict_get_Nil: "dict_get [] k = None"
  by (simp add: dict_get_def)

lemma dict_get_set: "dict_get (dict_set d k v) k' = (if k' = k then Some v else dict_get d k')"
  by (induction d) (auto simp: dict_get_def)

lemma keys_dict_set: "set (dict_keys (dict_set d k v)) = insert k (set (dict_keys d))"
  unfolding dict_keys_def
proof (induction d)
  case Nil
  show ?case by simp
next
  case (Cons kv d)
  then show ?case by (cases kv) auto
qed

lemma distinct_dict_set: "distinct (dict_keys d) \<Longrightarrow> distinct (dict_keys (dict_set d k v))"
proof (induction d)
  case Nil
  then show ?case by (simp add: dict_keys_def)
next
  case (Cons kv d)
  have "set (map fst (dict_set d k v)) = insert k (set (map fst d))"
    using keys_dict_set [of d k v] by (simp add: dict_keys_def)
  with Cons show ?case
    by (cases kv) (auto simp: dict_keys_def)
qed

subsection \<open>The scan loop\<close>

lemma scan_items_Cons:
  "scan_items e (f # rest) snap out =
     (if isl (is_file e f) then (Some (OSError (projl (is_file e f))), snap, out)
      else if readable e f then scan_items e rest (dict_set snap f (projr (hash_file e f))) out
      else if is_file e f = Inr True
        then scan_items e rest snap (out @ [skipping_line f (projl (hash_file e f))])
      else scan_items e rest snap out)"
  by (cases "is_file e f"; cases "hash_file e f") (auto simp: readable_def)

declare scan_items.simps(2) [simp del]

lemma scan_items_no_error:
  "listable e items \<Longrightarrow> fst (scan_items e items snap out) = None"
proof (induction items arbitrary: snap out)
  case Nil
  show ?case by simp
next
  case (Cons f rest)
  then have "\<not> isl (is_file e f)" and "listable e rest"
    by (simp_all add: listable_def)
  with Cons.IH show ?case
    by (simp only: scan_items_Cons if_False if_True split: if_splits) simp
qed

lemma scan_items_error_listable:
  "fst (scan_items e items snap out) = None \<Longrightarrow> listable e items"
proof (induction items arbitrary: snap out)
  case Nil
  show ?case by (simp add: listable_def)
next
  case (Cons f rest)
  show ?case
  proof (cases "isl (is_file e f)")
    case True
    with Cons.prems show ?thesis by (simp add: scan_items_Cons)
  next
    case False
    with Cons.prems have "\<exists>snap' out'. fst (scan_items e rest snap' out') = None"
      by (auto simp: scan_items_Cons split: if_splits)
    with Cons.IH have "listable e rest" by blast
    with False show ?thesis by (simp add: listable_def)
  qed
qed

lemma keys_scan_items:
  "listable e items \<Longrightarrow>
     set (dict_keys (fst (snd (scan_items e items snap out)))) =
       set (dict_keys snap) \<union> {f \<in> set items. readable e f}"
proof (induction items arbitrary: snap out)
  case Nil
  show ?case by simp
next
  case (Cons f rest)
  then have nf: "\<not> isl (is_file e f)" and lr: "listable e rest"
    by (simp_all add: listable_def)
  show ?case
    using nf Cons.IH [OF lr] by (auto simp: scan_items_Cons keys_dict_set)
qed

lemma distinct_scan_items:
  "distinct (dict_keys snap) \<Longrightarrow>
     distinct (dict_keys (fst (snd (scan_items e items snap out))))"
proof (induction items arbitrary: snap out)
  case Nil
  then show ?case by simp
next
  case (Cons f rest)
  then show ?case
    by (simp add: scan_items_Cons distinct_dict_set)
qed

lemma get_scan_items:
  "listable e items \<Longrightarrow>
     dict_get (fst (snd (scan_items e items snap out))) f =
       (if f \<in> set items \<and> readable e f then Some (projr (hash_file e f)) else dict_get snap f)"
proof (induction items arbitrary: snap out)
  case Nil
  show ?case by simp
next
  case (Cons g rest)
  then have ng: "\<not> isl (is_file e g)" and lr: "listable e rest"
    by (simp_all add: listable_def)
  show ?case
    using ng Cons.IH [OF lr] by (auto simp: scan_items_Cons dict_get_set)
qed

lemma length_scan_items:
  assumes "listable e items"
  shows "length (fst (snd (scan_items e items [] out))) = card {f \<in> set items. readable e f}"
proof -
  let ?s = "fst (snd (scan_items e items [] out))"
  have "distinct (dict_keys ?s)"
    by (rule distinct_scan_items) (simp add: dict_keys_Nil)
  then have "card (set (dict_keys ?s)) = length (dict_keys ?s)"
    by (rule distinct_card)
  moreover have "length (dict_keys ?s) = length ?s"
    by (simp add: dict_keys_def)
  ultimately show ?thesis
    using keys_scan_items [OF assms, of "[]" out] by (simp add: dict_keys_Nil)
qed

lemma scan_loop_listing:
  assumes "rglob e dir_path = (items, failure)"
  shows "scan_loop e dir_path snap out =
           (case scan_items e items snap out of
              (Some err, snap', out') \<Rightarrow> (Some err, snap', out')
            | (None, snap', out') \<Rightarrow> (map_option OSError failure, snap', out'))"
  using assms by (simp add: scan_loop_def)

lemma scan_loop_ok:
  assumes "rglob e dir_path = (items, None)" and "listable e items"
  shows "scan_loop e dir_path snap out =
           (None, fst (snd (scan_items e items snap out)), snd (snd (scan_items e items snap out)))"
proof -
  from assms(2) have "fst (scan_items e items snap out) = None"
    by (rule scan_items_no_error)
  then obtain s o' where "scan_items e items snap out = (None, s, o')"
    by (cases "scan_items e items snap out") auto
  with assms(1) show ?thesis
    by (simp add: scan_loop_def)
qed

subsection \<open>The examples are reachable\<close>

lemma register_proj:
  "register_directory (proj_env ''x'' ''old'') (start_monitoring initial_state) ''/tmp/proj/'' =
     (Inr \<lparr>r_status = ''success'', r_directory = ''/tmp/proj'', r_files_registered = 2\<rparr>,
      proj_state)"
  by code_simp

lemma register_empty:
  "register_directory empty_env (start_monitoring initial_state) ''/tmp/empty'' =
     (Inr \<lparr>r_status = ''success'', r_directory = ''/tmp/empty'', r_files_registered = 0\<rparr>,
      empty_state)"
  by code_simp

lemma register_subdirs:
  "register_directory (subdirs_env ''x'') (start_monitoring initial_state) ''/tmp/proj'' =
     (Inr \<lparr>r_status = ''success'', r_directory = ''/tmp/proj'', r_files_registered = 2\<rparr>,
      subdirs_state)"
  by code_simp

subsection \<open>The diff of verify\<close>

lemma set_added_files:
  "set (added_files old new) = {p. p \<in> set (dict_keys new) \<and> p \<notin> set (dict_keys old)}"
  by (auto simp: added_files_def dict_contains_keys)

lemma set_deleted_files:
  "set (deleted_files old new) = {p. p \<in> set (dict_keys old) \<and> p \<notin> set (dict_keys new)}"
  by (auto simp: deleted_files_def dict_contains_keys)

lemma set_modified_files:
  "set (modified_files old new) =
     {p. p \<in> set (dict_keys old) \<and> p \<in> set (dict_keys new) \<and> dict_get new p \<noteq> dict_get old p}"
  by (auto simp: modified_files_def dict_contains_keys)

text \<open>
  C1. For any two snapshots \<open>old\<close> and \<open>new\<close>, every path that is a key of one of them
  falls into exactly one of four classes: added (the comprehension of line 98: a key of
  \<open>new\<close> that is no key of \<open>old\<close>), deleted (line 99: a key of \<open>old\<close> that is no key
  of \<open>new\<close>), modified (line 100: a key of both whose digests differ), or unchanged (a
  key of both with equal digests, which verify does not report).
\<close>

theorem verify_diff_classifies:
  fixes old new :: snapshot
  assumes "p \<in> set (dict_keys old) \<union> set (dict_keys new)"
  shows "(p \<in> set (added_files old new)
            \<longleftrightarrow> p \<in> set (dict_keys new) \<and> p \<notin> set (dict_keys old))
       \<and> (p \<in> set (deleted_files old new)
            \<longleftrightarrow> p \<in> set (dict_keys old) \<and> p \<notin> set (dict_keys new))
       \<and> (p \<in> set (modified_files old new)
            \<longleftrightarrow> p \<in> set (dict_keys old) \<and> p \<in> set (dict_keys new)
                \<and> dict_get new p \<noteq> dict_get old p)
       \<and> (let a = p \<in> set (added_files old new);
               d = p \<in> set (deleted_files old new);
               m = p \<in> set (modified_files old new);
               u = (p \<in> set (dict_keys old) \<and> p \<in> set (dict_keys new)
                    \<and> dict_get new p = dict_get old p)
           in (a \<and> \<not> d \<and> \<not> m \<and> \<not> u) \<or> (\<not> a \<and> d \<and> \<not> m \<and> \<not> u)
            \<or> (\<not> a \<and> \<not> d \<and> m \<and> \<not> u) \<or> (\<not> a \<and> \<not> d \<and> \<not> m \<and> u))"
  using assms
  unfolding set_added_files set_deleted_files set_modified_files Let_def
  by blast

theorem verify_diff_classifies_witness:
  "''/tmp/proj/a.txt''
     \<in> set (dict_keys [(''/tmp/proj/a.txt'', ''x''), (''/tmp/proj/gone.txt'', ''g'')])
       \<union> set (dict_keys [(''/tmp/proj/a.txt'', ''y''), (''/tmp/proj/new.txt'', ''n'')])
   \<and> ''/tmp/proj/a.txt''
     \<in> set (modified_files [(''/tmp/proj/a.txt'', ''x''), (''/tmp/proj/gone.txt'', ''g'')]
               [(''/tmp/proj/a.txt'', ''y''), (''/tmp/proj/new.txt'', ''n'')])
   \<and> ''/tmp/proj/a.txt''
     \<notin> set (added_files [(''/tmp/proj/a.txt'', ''x''), (''/tmp/proj/gone.txt'', ''g'')]
               [(''/tmp/proj/a.txt'', ''y''), (''/tmp/proj/new.txt'', ''n'')])
   \<and> ''/tmp/proj/a.txt''
     \<notin> set (deleted_files [(''/tmp/proj/a.txt'', ''x''), (''/tmp/proj/gone.txt'', ''g'')]
               [(''/tmp/proj/a.txt'', ''y''), (''/tmp/proj/new.txt'', ''n'')])"
proof -
  let ?old = "[(''/tmp/proj/a.txt'', ''x''), (''/tmp/proj/gone.txt'', ''g'')]"
  let ?new = "[(''/tmp/proj/a.txt'', ''y''), (''/tmp/proj/new.txt'', ''n'')]"
  have h: "''/tmp/proj/a.txt'' \<in> set (dict_keys ?old) \<union> set (dict_keys ?new)"
    by (simp add: dict_keys_def)
  have k: "''/tmp/proj/a.txt'' \<in> set (dict_keys ?old)" "''/tmp/proj/a.txt'' \<in> set (dict_keys ?new)"
    "dict_get ?new ''/tmp/proj/a.txt'' \<noteq> dict_get ?old ''/tmp/proj/a.txt''"
    by (simp_all add: dict_keys_def dict_get_def)
  from verify_diff_classifies [OF h] k h show ?thesis
    by blast
qed

subsection \<open>What verify returns\<close>

text \<open>
  For a registered id, verify is determined by the scan of the directory it infers:
  it raises what the scan raises, and otherwise returns the diff of the stored snapshot
  and the scan, which it stores.
\<close>

lemma verify_changes_registered:
  assumes "dict_get (dir_db st) d = Some original"
  shows "verify_changes e st d =
           (case scan_loop e (verify_dir_path original) [] (stdout st) of
              (Some err, partial, out) \<Rightarrow> (Inl err, st\<lparr>stdout := out\<rparr>)
            | (None, current, out) \<Rightarrow>
                (Inr \<lparr>v_directory = verify_dir_path original,
                      v_added = added_files original current,
                      v_deleted = deleted_files original current,
                      v_modified = modified_files original current,
                      v_recent_changes = last_ten (change_log st)\<rparr>,
                 st\<lparr>dir_db := dict_set (dir_db st) d current, stdout := out\<rparr>))"
  using assms by (simp add: verify_changes_def Let_def)

lemma verify_changes_success:
  assumes "verify_changes e st d = (Inr r, st')"
  shows "\<exists>original current out.
           dict_get (dir_db st) d = Some original
         \<and> scan_loop e (verify_dir_path original) [] (stdout st) = (None, current, out)
         \<and> r = \<lparr>v_directory = verify_dir_path original,
                 v_added = added_files original current,
                 v_deleted = deleted_files original current,
                 v_modified = modified_files original current,
                 v_recent_changes = last_ten (change_log st)\<rparr>
         \<and> st' = st\<lparr>dir_db := dict_set (dir_db st) d current, stdout := out\<rparr>"
proof -
  from assms obtain original where orig: "dict_get (dir_db st) d = Some original"
    by (cases "dict_get (dir_db st) d") (auto simp: verify_changes_def)
  obtain raised current out where
    scan: "scan_loop e (verify_dir_path original) [] (stdout st) = (raised, current, out)"
    by (cases "scan_loop e (verify_dir_path original) [] (stdout st)") auto
  from assms orig scan have none: "raised = None"
    by (cases raised) (auto simp: verify_changes_registered)
  from assms orig scan none show ?thesis
    by (auto simp: verify_changes_registered)
qed

lemma verify_changes_reports_diff:
  assumes "dict_get (dir_db st) d = Some old"
      and "verify_changes e st d = (Inr r, st')"
  shows "\<exists>new. dict_get (dir_db st') d = Some new
         \<and> v_added r = added_files old new
         \<and> v_deleted r = deleted_files old new
         \<and> v_modified r = modified_files old new"
proof -
  from verify_changes_success [OF assms(2)] assms(1) obtain current out where
    r: "r = \<lparr>v_directory = verify_dir_path old,
             v_added = added_files old current,
             v_deleted = deleted_files old current,
             v_modified = modified_files old current,
             v_recent_changes = last_ten (change_log st)\<rparr>"
    and st': "st' = st\<lparr>dir_db := dict_set (dir_db st) d current, stdout := out\<rparr>"
    by auto
  have "dict_get (dir_db st') d = Some current"
    by (simp add: st' dict_get_set)
  with r show ?thesis
    by (intro exI [of _ current]) simp
qed

lemma verify_changes_returns:
  assumes "dict_get (dir_db st) d = Some original"
      and "rglob e (verify_dir_path original) = (items, None)"
      and "listable e items"
  shows "\<exists>r st'. verify_changes e st d = (Inr r, st')"
  using assms by (simp add: verify_changes_registered scan_loop_ok split: prod.splits)

subsection \<open>Verifying twice\<close>

text \<open>
  C2. The claim is that two successive calls of verify with no change of the file
  system both report nothing. \<^verbatim>\<open>/tmp/proj\<close> holds only the subdirectories \<^verbatim>\<open>a\<close> and
  \<^verbatim>\<open>b\<close> with one file each. It is registered and nothing changes. The first verify
  reads the directory off the first snapshot entry, \<^verbatim>\<open>/tmp/proj/a/x.txt\<close>, rescans
  \<^verbatim>\<open>/tmp/proj/a\<close> only and reports \<^verbatim>\<open>/tmp/proj/b/y.txt\<close> as deleted; the second
  verify reports nothing.
\<close>

theorem verify_after_register_reports_deletion:
  "register_directory (subdirs_env ''x'') (start_monitoring initial_state) ''/tmp/proj'' =
     (Inr \<lparr>r_status = ''success'', r_directory = ''/tmp/proj'', r_files_registered = 2\<rparr>,
      subdirs_state)
   \<and> verify_changes (subdirs_env ''x'') subdirs_state ''proj'' =
     (Inr \<lparr>v_directory = ''/tmp/proj/a'', v_added = [],
            v_deleted = [''/tmp/proj/b/y.txt''], v_modified = [], v_recent_changes = []\<rparr>,
      subdirs_state\<lparr>dir_db := [(''proj'', [(''/tmp/proj/a/x.txt'', ''x'')])]\<rparr>)
   \<and> verify_changes (subdirs_env ''x'')
       (subdirs_state\<lparr>dir_db := [(''proj'', [(''/tmp/proj/a/x.txt'', ''x'')])]\<rparr>) ''proj'' =
     (Inr \<lparr>v_directory = ''/tmp/proj/a'', v_added = [], v_deleted = [], v_modified = [],
            v_recent_changes = []\<rparr>,
      subdirs_state\<lparr>dir_db := [(''proj'', [(''/tmp/proj/a/x.txt'', ''x'')])]\<rparr>)"
  by code_simp

subsection \<open>Which directory verify rescans\<close>

lemma path_head_no_sep:
  assumes "CHR ''/'' \<notin> set name"
  shows "path_head (pre @ name) = path_head pre"
proof -
  have "dropWhile (\<lambda>c. \<not> is_sep c) (rev name @ rev pre) = dropWhile (\<lambda>c. \<not> is_sep c) (rev pre)"
    using assms by (subst dropWhile_append2) (auto simp: is_sep_def)
  then show ?thesis
    by (simp add: path_head_def)
qed

lemma path_head_ends_sep: "path_head (pre @ ''/'') = pre @ ''/''"
  by (simp add: path_head_def is_sep_def)

lemma dirname_join:
  assumes "CHR ''/'' \<notin> set name" and "root \<noteq> []" and "last root \<noteq> CHR ''/''"
  shows "dirname (root @ ''/'' @ name) = root"
proof -
  have "path_head ((root @ ''/'') @ name) = path_head (root @ ''/'')"
    using assms(1) by (rule path_head_no_sep)
  then have head: "path_head (root @ ''/'' @ name) = root @ ''/''"
    by (simp add: path_head_ends_sep)
  have "last root \<in> set root"
    using assms(2) by simp
  with assms(3) have not_all: "\<not> list_all is_sep (root @ ''/'')"
    by (auto simp: list_all_iff is_sep_def)
  from assms(2) obtain ys y where split: "root = ys @ [y]"
    by (cases root rule: rev_cases) auto
  with assms(3) have "dropWhile is_sep (rev root) = rev root"
    by (simp add: is_sep_def)
  then have "rstrip_sep (root @ ''/'') = root"
    by (simp add: rstrip_sep_def is_sep_def)
  with head not_all show ?thesis
    by (simp add: dirname_def Let_def)
qed

lemma dirname_slash_root:
  assumes "CHR ''/'' \<notin> set name" and "root \<noteq> []" and "list_all is_sep root"
  shows "dirname (root @ name) = root"
proof -
  from assms(2) obtain ys y where split: "root = ys @ [y]"
    by (cases root rule: rev_cases) auto
  with assms(3) have y: "y = CHR ''/''"
    by (simp add: is_sep_def)
  have "path_head (root @ name) = path_head root"
    using assms(1) by (rule path_head_no_sep)
  also have "\<dots> = root"
    using split y path_head_ends_sep [of ys] by simp
  finally show ?thesis
    using assms(2,3) by (simp add: dirname_def Let_def)
qed

lemma dirname_bare_name:
  assumes "CHR ''/'' \<notin> set name"
  shows "dirname name = []"
proof -
  have "path_head ([] @ name) = path_head []"
    using assms by (rule path_head_no_sep)
  then show ?thesis
    by (simp add: dirname_def Let_def path_head_def)
qed

lemma verify_dir_path_hd:
  "original \<noteq> [] \<Longrightarrow> verify_dir_path original = dirname (fst (hd original))"
  by (cases original) (auto simp: verify_dir_path_def first_key_def Let_def dirname_def path_head_def)

text \<open>
  The state has no field for the root path of a registration: \<^verbatim>\<open>dir_db\<close> maps a
  directory name to its snapshot and nothing else. After registering the empty
  directory \<^verbatim>\<open>/tmp/empty\<close>, verify rescans the path \<^verbatim>\<open>""\<close>, which pathlib reads as
  the working directory, and reports the file it finds there as added.
\<close>

theorem verify_empty_snapshot_counterexample:
  "register_directory empty_env (start_monitoring initial_state) ''/tmp/empty'' =
     (Inr \<lparr>r_status = ''success'', r_directory = ''/tmp/empty'', r_files_registered = 0\<rparr>,
      empty_state)
   \<and> verify_changes empty_env empty_state ''empty'' =
     (Inr \<lparr>v_directory = [], v_added = [''notes.txt''], v_deleted = [], v_modified = [],
           v_recent_changes = []\<rparr>,
      empty_state\<lparr>dir_db := [(''empty'', [(''notes.txt'', ''n'')])]\<rparr>)"
  by code_simp

text \<open>
  C3, as the code has it. For a registered directory id whose stored snapshot is not
  empty, verify rescans \<^verbatim>\<open>os.path.dirname\<close> of the first entry of that snapshot and no
  other path: when that scan raises, verify raises the same error and leaves the
  catalog as it was; otherwise it reports that path as \<^verbatim>\<open>directory\<close>, diffs the
  stored snapshot against that scan and stores the scan as the new snapshot. The path
  is \<open>root\<close> when the first entry is \<open>root/name\<close> with \<open>root\<close> not ending in a slash,
  or \<open>root\<close> followed by \<open>name\<close> with \<open>root\<close> made of slashes only, \<open>name\<close> having no
  slash: the forms pathlib gives a file lying directly in \<open>root\<close>, for every root
  except \<^verbatim>\<open>.\<close>, whose files are listed by their bare names; for a bare name the path
  is empty.
\<close>

theorem verify_rescans_parent_of_first_entry:
  assumes "dict_get (dir_db st) d = Some original" and "original \<noteq> []"
  shows "verify_changes e st d =
           (case scan_loop e (dirname (fst (hd original))) [] (stdout st) of
              (Some err, partial, out) \<Rightarrow> (Inl err, st\<lparr>stdout := out\<rparr>)
            | (None, current, out) \<Rightarrow>
                (Inr \<lparr>v_directory = dirname (fst (hd original)),
                      v_added = added_files original current,
                      v_deleted = deleted_files original current,
                      v_modified = modified_files original current,
                      v_recent_changes = last_ten (change_log st)\<rparr>,
                 st\<lparr>dir_db := dict_set (dir_db st) d current, stdout := out\<rparr>))
       \<and> (\<forall>root name. CHR ''/'' \<notin> set name \<and> root \<noteq> [] \<and> last root \<noteq> CHR ''/''
             \<and> fst (hd original) = root @ ''/'' @ name
             \<longrightarrow> dirname (fst (hd original)) = root)
       \<and> (\<forall>root name. CHR ''/'' \<notin> set name \<and> root \<noteq> [] \<and> list_all is_sep root
             \<and> fst (hd original) = root @ name
             \<longrightarrow> dirname (fst (hd original)) = root)
       \<and> (CHR ''/'' \<notin> set (fst (hd original)) \<longrightarrow> dirname (fst (hd original)) = [])"
proof -
  have run: "verify_changes e st d =
           (case scan_loop e (dirname (fst (hd original))) [] (stdout st) of
              (Some err, partial, out) \<Rightarrow> (Inl err, st\<lparr>stdout := out\<rparr>)
            | (None, current, out) \<Rightarrow>
                (Inr \<lparr>v_directory = dirname (fst (hd original)),
                      v_added = added_files original current,
                      v_deleted = deleted_files original current,
                      v_modified = modified_files original current,
                      v_recent_changes = last_ten (change_log st)\<rparr>,
                 st\<lparr>dir_db := dict_set (dir_db st) d current, stdout := out\<rparr>))"
    unfolding verify_dir_path_hd [OF assms(2), symmetric]
    by (rule verify_changes_registered [OF assms(1)])
  have joined: "\<forall>root name. CHR ''/'' \<notin> set name \<and> root \<noteq> [] \<and> last root \<noteq> CHR ''/''
             \<and> fst (hd original) = root @ ''/'' @ name
             \<longrightarrow> dirname (fst (hd original)) = root"
    using dirname_join by metis
  have slashes: "\<forall>root name. CHR ''/'' \<notin> set name \<and> root \<noteq> [] \<and> list_all is_sep root
             \<and> fst (hd original) = root @ name
             \<longrightarrow> dirname (fst (hd original)) = root"
    using dirname_slash_root by metis
  have bare: "CHR ''/'' \<notin> set (fst (hd original)) \<longrightarrow> dirname (fst (hd original)) = []"
    using dirname_bare_name by blast
  from run joined slashes bare show ?thesis
    by (intro conjI)
qed

theorem verify_rescans_parent_of_first_entry_witness:
  "dict_get (dir_db proj_state) ''proj''
     = Some [(''/tmp/proj/a.txt'', ''x''), (''/tmp/proj/proj/f.txt'', ''old'')]
   \<and> [(''/tmp/proj/a.txt'', ''x''), (''/tmp/proj/proj/f.txt'', ''old'')] \<noteq> []
   \<and> dirname (fst (hd [(''/tmp/proj/a.txt'', ''x''), (''/tmp/proj/proj/f.txt'', ''old'')]))
       = ''/tmp/proj''
   \<and> fst (verify_changes (proj_env ''x'' ''old'') proj_state ''proj'')
       = Inr \<lparr>v_directory = ''/tmp/proj'', v_added = [], v_deleted = [], v_modified = [],
              v_recent_changes = []\<rparr>
   \<and> dict_get (dir_db locked_state) ''proj'' = Some [(''/tmp/proj/a.txt'', ''x'')]
   \<and> verify_changes locked_env locked_state ''proj''
       = (Inl (OSError ''[Errno 13] Permission denied''), locked_state)"
proof -
  let ?snap = "[(''/tmp/proj/a.txt'', ''x''), (''/tmp/proj/proj/f.txt'', ''old'')]"
  let ?lsnap = "[(''/tmp/proj/a.txt'', ''x'')]"
  have h1: "dict_get (dir_db proj_state) ''proj'' = Some ?snap"
    by code_simp
  have h2: "?snap \<noteq> []"
    by simp
  have first: "CHR ''/'' \<notin> set ''a.txt'' \<and> ''/tmp/proj'' \<noteq> [] \<and> last ''/tmp/proj'' \<noteq> CHR ''/''
      \<and> fst (hd ?snap) = ''/tmp/proj'' @ ''/'' @ ''a.txt''"
    by simp
  note inst = verify_rescans_parent_of_first_entry [OF h1 h2, of "proj_env ''x'' ''old''"]
  from inst first have dir: "dirname (fst (hd ?snap)) = ''/tmp/proj''"
    by blast
  have scan: "scan_loop (proj_env ''x'' ''old'') ''/tmp/proj'' [] (stdout proj_state)
      = (None, ?snap, stdout proj_state @ [''Skipping /tmp/proj/b.bin: [Errno 13] Permission denied''])"
    by code_simp
  have diff: "added_files ?snap ?snap = [] \<and> deleted_files ?snap ?snap = []
      \<and> modified_files ?snap ?snap = []" "last_ten (change_log proj_state) = []"
    by code_simp+
  from inst have "verify_changes (proj_env ''x'' ''old'') proj_state ''proj'' =
           (case scan_loop (proj_env ''x'' ''old'') (dirname (fst (hd ?snap))) [] (stdout proj_state) of
              (Some err, partial, out) \<Rightarrow> (Inl err, proj_state\<lparr>stdout := out\<rparr>)
            | (None, current, out) \<Rightarrow>
                (Inr \<lparr>v_directory = dirname (fst (hd ?snap)),
                      v_added = added_files ?snap current,
                      v_deleted = deleted_files ?snap current,
                      v_modified = modified_files ?snap current,
                      v_recent_changes = last_ten (change_log proj_state)\<rparr>,
                 proj_state\<lparr>dir_db := dict_set (dir_db proj_state) ''proj'' current,
                            stdout := out\<rparr>))"
    by (rule conjunct1)
  with dir scan diff have ok:
    "fst (verify_changes (proj_env ''x'' ''old'') proj_state ''proj'')
       = Inr \<lparr>v_directory = ''/tmp/proj'', v_added = [], v_deleted = [], v_modified = [],
              v_recent_changes = []\<rparr>"
    by simp
  have l1: "dict_get (dir_db locked_state) ''proj'' = Some ?lsnap"
    by code_simp
  have l2: "?lsnap \<noteq> []"
    by simp
  have lscan: "scan_loop locked_env (dirname (fst (hd ?lsnap))) [] (stdout locked_state)
      = (Some (OSError ''[Errno 13] Permission denied''), ?lsnap, stdout locked_state)"
    by code_simp
  have lout: "locked_state\<lparr>stdout := stdout locked_state\<rparr> = locked_state"
    by simp
  from verify_rescans_parent_of_first_entry [OF l1 l2, of locked_env] lscan lout
  have failed: "verify_changes locked_env locked_state ''proj''
       = (Inl (OSError ''[Errno 13] Permission denied''), locked_state)"
    by simp
  from h1 h2 dir ok l1 failed show ?thesis
    by (intro conjI)
qed

subsection \<open>Registration\<close>

text \<open>
  Where the listing does not fail, \<^verbatim>\<open>is_file\<close> raises for none of the listed paths
  and the watch can be scheduled, registration succeeds: \<^verbatim>\<open>files_registered\<close> is the
  number of listed regular files that \<^verbatim>\<open>hash_file\<close> can fingerprint, the stored
  snapshot has exactly those files as keys, each with its digest, and no file whose
  fingerprinting raises.
\<close>

lemma register_counts_readable_files:
  assumes "isdir e (normpath p)" and "observer st = Some watches"
      and "rglob e (normpath p) = (items, None)" and "listable e items"
      and "schedule e (normpath p) = None"
  shows "\<exists>r st' snap.
           register_directory e st p = (Inr r, st')
         \<and> r_status r = ''success''
         \<and> r_files_registered r =
             card {f \<in> set items. is_file e f = Inr True \<and> \<not> isl (hash_file e f)}
         \<and> dict_get (dir_db st') (basename (normpath p)) = Some snap
         \<and> set (dict_keys snap) =
             {f \<in> set items. is_file e f = Inr True \<and> \<not> isl (hash_file e f)}
         \<and> (\<forall>f\<in>set (dict_keys snap). hash_file e f = Inr (the (dict_get snap f)))
         \<and> (\<forall>f\<in>set items. isl (hash_file e f) \<longrightarrow> \<not> dict_contains snap f)"
proof -
  let ?snap = "fst (snd (scan_items e items [] (stdout st)))"
  let ?out = "snd (snd (scan_items e items [] (stdout st)))"
  let ?st1 = "st\<lparr>dir_db := dict_set (dir_db st) (basename (normpath p)) ?snap, stdout := ?out\<rparr>"
  let ?r = "\<lparr>r_status = ''success'', r_directory = normpath p,
             r_files_registered = length ?snap\<rparr>"
  let ?st' = "?st1\<lparr>observer := Some (watches @ [(normpath p, True)])\<rparr>"
  have scan: "scan_loop e (normpath p) [] (stdout st) = (None, ?snap, ?out)"
    using assms(3,4) by (rule scan_loop_ok)
  have run: "register_directory e st p = (Inr ?r, ?st')"
    using assms(1,2,5) scan by (simp add: register_directory_def Let_def case_prod_beta)
  have status: "r_status ?r = ''success''"
    by simp
  have count: "r_files_registered ?r =
      card {f \<in> set items. is_file e f = Inr True \<and> \<not> isl (hash_file e f)}"
    using length_scan_items [OF assms(4), of "stdout st"] by (simp add: readable_def)
  have stored: "dict_get (dir_db ?st') (basename (normpath p)) = Some ?snap"
    by (simp add: dict_get_set)
  have keys: "set (dict_keys ?snap) =
      {f \<in> set items. is_file e f = Inr True \<and> \<not> isl (hash_file e f)}"
    using keys_scan_items [OF assms(4), of "[]" "stdout st"]
    by (simp add: readable_def dict_keys_Nil)
  have vals: "\<forall>f\<in>set (dict_keys ?snap). hash_file e f = Inr (the (dict_get ?snap f))"
  proof
    fix f assume "f \<in> set (dict_keys ?snap)"
    with keys have "f \<in> set items" and "readable e f"
      by (simp_all add: readable_def)
    then show "hash_file e f = Inr (the (dict_get ?snap f))"
      using get_scan_items [OF assms(4), of "[]" "stdout st" f]
      by (simp add: readable_def)
  qed
  have omitted: "\<forall>f\<in>set items. isl (hash_file e f) \<longrightarrow> \<not> dict_contains ?snap f"
    by (simp add: dict_contains_keys keys)
  show ?thesis
    by (rule exI [of _ ?r], rule exI [of _ ?st'], rule exI [of _ ?snap])
       (intro conjI run status count stored keys vals omitted)
qed

lemma register_is_file_error:
  assumes "isdir e (normpath p)"
      and "scan_loop e (normpath p) [] (stdout st) = (Some err, snap, out)"
  shows "register_directory e st p =
           (Inl err, st\<lparr>dir_db := dict_set (dir_db st) (basename (normpath p)) snap,
                         stdout := out\<rparr>)"
  using assms by (simp add: register_directory_def Let_def)

text \<open>
  C4. The claim is that registration counts the files it can fingerprint, omits the
  others and does not fail as a whole. In \<open>locked_env\<close> one file can be fingerprinted
  and one cannot be read. \<^verbatim>\<open>filepath.is_file()\<close> at line 62 is not inside the
  \<^verbatim>\<open>try\<close>, so its \<^verbatim>\<open>PermissionError\<close> ends the registration: no result is returned
  and no watch is scheduled, while the catalog keeps the entries made so far.
\<close>

theorem register_fails_when_is_file_raises:
  "isdir locked_env (normpath ''/tmp/proj'')
   \<and> hash_file locked_env ''/tmp/proj/a.txt'' = Inr ''x''
   \<and> is_file locked_env ''/tmp/proj/locked/s.txt'' = Inl ''[Errno 13] Permission denied''
   \<and> register_directory locked_env (start_monitoring initial_state) ''/tmp/proj'' =
       (Inl (OSError ''[Errno 13] Permission denied''), locked_state)"
  by code_simp

subsection \<open>The watcher\<close>




text \<open>
  When the file of such an event cannot be read, the exception of \<^verbatim>\<open>hash_file\<close> leaves
  \<^verbatim>\<open>on_modified\<close>: the state is as before, but the call ends in the error.
\<close>

lemma on_modified_unreadable:
  assumes "\<not> is_directory ev"
      and "dict_contains (dir_db st) (basename (dirname (src_path ev)))"
      and "hash_file e (src_path ev) = Inl err"
  shows "on_modified e st ev = (Inl err, st)"
  using assms by (auto simp: on_modified_def Let_def dict_contains_def)

text \<open>
  C6. The claim is that the watcher skips an unreadable file without the error
  propagating. At the event for the unreadable \<^verbatim>\<open>/tmp/proj/b.bin\<close> the state is indeed
  left alone, but \<^verbatim>\<open>on_modified\<close> raises. The scans of register and verify catch the
  same exception and go on.
\<close>

theorem on_modified_unreadable_propagates:
  "on_modified (proj_env ''x'' ''old'') proj_state
     \<lparr>is_directory = False, src_path = ''/tmp/proj/b.bin''\<rparr>
   = (Inl (OSError ''[Errno 13] Permission denied''), proj_state)"
  by code_simp

text \<open>
  An event for a file in a subdirectory of a registered root does reach the root's
  snapshot when the subdirectory has the root's own base name: \<^verbatim>\<open>/tmp/proj/proj/f.txt\<close>
  is entered under the id \<^verbatim>\<open>proj\<close>.
\<close>

theorem on_modified_subdirectory_counterexample:
  "on_modified (proj_env ''x'' ''new'') proj_state
     \<lparr>is_directory = False, src_path = ''/tmp/proj/proj/f.txt''\<rparr>
   = (Inr (),
      proj_state\<lparr>change_log := [''MODIFIED: /tmp/proj/proj/f.txt''],
                 dir_db := [(''proj'', [(''/tmp/proj/a.txt'', ''x''),
                                       (''/tmp/proj/proj/f.txt'', ''new'')])]\<rparr>)"
  by code_simp

text \<open>
  C9, as the code has it. An event for a file whose parent directory's base name is not
  a registered id leaves the whole state unchanged. In every case the event leaves the
  snapshot of each id other than that base name unchanged: an event for a file in a
  subdirectory of a registered root can reach the root's snapshot only if the
  subdirectory's base name is the root's id.
\<close>

theorem on_modified_keyed_by_parent_name:
  "(\<not> dict_contains (dir_db st) (basename (dirname (src_path ev)))
      \<longrightarrow> on_modified e st ev = (Inr (), st))
   \<and> (\<forall>d. d \<noteq> basename (dirname (src_path ev))
      \<longrightarrow> dict_get (dir_db (snd (on_modified e st ev))) d = dict_get (dir_db st) d)"
  by (auto simp: on_modified_def Let_def dict_contains_def dict_get_set
      split: option.splits sum.splits)

theorem on_modified_keyed_by_parent_name_witness:
  "\<not> dict_contains (dir_db proj_state) (basename (dirname ''/tmp/proj/sub/c.txt''))
   \<and> on_modified (proj_env ''x'' ''old'') proj_state
        \<lparr>is_directory = False, src_path = ''/tmp/proj/sub/c.txt''\<rparr> = (Inr (), proj_state)
   \<and> ''empty'' \<noteq> basename (dirname ''/tmp/proj/a.txt'')
   \<and> dict_get (dir_db (snd (on_modified (proj_env ''y'' ''old'')
          (proj_state\<lparr>dir_db := dir_db proj_state @ [(''empty'', [])]\<rparr>)
          \<lparr>is_directory = False, src_path = ''/tmp/proj/a.txt''\<rparr>))) ''empty'' = Some []"
proof -
  let ?ev = "\<lparr>is_directory = False, src_path = ''/tmp/proj/sub/c.txt''\<rparr>"
  let ?ev2 = "\<lparr>is_directory = False, src_path = ''/tmp/proj/a.txt''\<rparr>"
  let ?st2 = "proj_state\<lparr>dir_db := dir_db proj_state @ [(''empty'', [])]\<rparr>"
  have h: "\<not> dict_contains (dir_db proj_state) (basename (dirname (src_path ?ev)))"
    by code_simp
  have ne: "''empty'' \<noteq> basename (dirname (src_path ?ev2))"
    by code_simp
  have before: "dict_get (dir_db ?st2) ''empty'' = Some []"
    by code_simp
  from on_modified_keyed_by_parent_name [of proj_state ?ev "proj_env ''x'' ''old''"] h
  have first: "on_modified (proj_env ''x'' ''old'') proj_state ?ev = (Inr (), proj_state)"
    by blast
  from on_modified_keyed_by_parent_name [of ?st2 ?ev2 "proj_env ''y'' ''old''"] ne
  have "dict_get (dir_db (snd (on_modified (proj_env ''y'' ''old'') ?st2 ?ev2))) ''empty''
          = dict_get (dir_db ?st2) ''empty''"
    by blast
  with before have second:
    "dict_get (dir_db (snd (on_modified (proj_env ''y'' ''old'') ?st2 ?ev2))) ''empty'' = Some []"
    by simp
  from h ne first second show ?thesis
    by simp
qed

subsection \<open>Unknown directory ids\<close>

text \<open>
  C7. For a directory id that is not in the catalog, verify and list both raise
  \<^verbatim>\<open>HTTPException(404, "Directory not registered")\<close> and leave the state unchanged.
\<close>

theorem unknown_id_not_registered:
  assumes "\<not> dict_contains (dir_db st) d"
  shows "verify_changes e st d = (Inl (HTTPException 404 ''Directory not registered''), st)
       \<and> list_files e st d = (Inl (HTTPException 404 ''Directory not registered''), st)"
  using assms by (simp add: verify_changes_def list_files_def dict_contains_def)

theorem unknown_id_not_registered_witness:
  "\<not> dict_contains (dir_db proj_state) ''doesNotExist''
   \<and> verify_changes (proj_env ''x'' ''old'') proj_state ''doesNotExist''
       = (Inl (HTTPException 404 ''Directory not registered''), proj_state)
   \<and> list_files (proj_env ''x'' ''old'') proj_state ''doesNotExist''
       = (Inl (HTTPException 404 ''Directory not registered''), proj_state)"
proof -
  have h: "\<not> dict_contains (dir_db proj_state) ''doesNotExist''"
    by code_simp
  from unknown_id_not_registered [OF h, of "proj_env ''x'' ''old''"] h show ?thesis
    by simp
qed

subsection \<open>Recent changes\<close>

lemma last_ten_suffix: "xs = take (length xs - 10) xs @ last_ten xs"
  by (simp add: last_ten_def)

lemma length_last_ten: "length (last_ten xs) = min 10 (length xs)"
  by (simp add: last_ten_def)

text \<open>
  C8. When verify succeeds, its \<^verbatim>\<open>recent_changes\<close> is the end of the change log: the
  log is some older entries followed by exactly the returned ones, in the same order,
  and ten entries are returned, or the whole log when it has fewer. Verify does not
  touch the log.
\<close>

theorem verify_recent_changes:
  assumes "verify_changes e st d = (Inr r, st')"
  shows "\<exists>older. change_log st = older @ v_recent_changes r
         \<and> length (v_recent_changes r) = min 10 (length (change_log st))
         \<and> change_log st' = change_log st"
proof -
  from verify_changes_success [OF assms] have
    r: "v_recent_changes r = last_ten (change_log st)" and log: "change_log st' = change_log st"
    by auto
  have "change_log st = take (length (change_log st) - 10) (change_log st) @ v_recent_changes r"
    using last_ten_suffix [of "change_log st"] r by simp
  moreover have "length (v_recent_changes r) = min 10 (length (change_log st))"
    by (simp add: r length_last_ten)
  ultimately show ?thesis
    using log by blast
qed

theorem verify_recent_changes_witness:
  "fst (verify_changes (proj_env ''x'' ''old'') busy_state ''proj'')
     = Inr \<lparr>v_directory = ''/tmp/proj'', v_added = [], v_deleted = [], v_modified = [],
            v_recent_changes =
              [''MODIFIED: /tmp/proj/c'', ''MODIFIED: /tmp/proj/d'',
               ''MODIFIED: /tmp/proj/e'', ''MODIFIED: /tmp/proj/f'',
               ''MODIFIED: /tmp/proj/g'', ''MODIFIED: /tmp/proj/h'',
               ''MODIFIED: /tmp/proj/i'', ''MODIFIED: /tmp/proj/j'',
               ''MODIFIED: /tmp/proj/k'', ''MODIFIED: /tmp/proj/l'']\<rparr>
   \<and> length (change_log busy_state) = 12
   \<and> (\<exists>older. change_log busy_state =
           older @ [''MODIFIED: /tmp/proj/c'', ''MODIFIED: /tmp/proj/d'',
                    ''MODIFIED: /tmp/proj/e'', ''MODIFIED: /tmp/proj/f'',
                    ''MODIFIED: /tmp/proj/g'', ''MODIFIED: /tmp/proj/h'',
                    ''MODIFIED: /tmp/proj/i'', ''MODIFIED: /tmp/proj/j'',
                    ''MODIFIED: /tmp/proj/k'', ''MODIFIED: /tmp/proj/l''])
   \<and> change_log (snd (verify_changes (proj_env ''x'' ''old'') busy_state ''proj''))
       = change_log busy_state"
proof -
  let ?e = "proj_env ''x'' ''old''"
  let ?r = "\<lparr>v_directory = ''/tmp/proj'', v_added = [], v_deleted = [], v_modified = [],
             v_recent_changes =
               [''MODIFIED: /tmp/proj/c'', ''MODIFIED: /tmp/proj/d'',
                ''MODIFIED: /tmp/proj/e'', ''MODIFIED: /tmp/proj/f'',
                ''MODIFIED: /tmp/proj/g'', ''MODIFIED: /tmp/proj/h'',
                ''MODIFIED: /tmp/proj/i'', ''MODIFIED: /tmp/proj/j'',
                ''MODIFIED: /tmp/proj/k'', ''MODIFIED: /tmp/proj/l'']\<rparr>"
  have out: "fst (verify_changes ?e busy_state ''proj'') = Inr ?r"
    by code_simp
  then have run: "verify_changes ?e busy_state ''proj''
      = (Inr ?r, snd (verify_changes ?e busy_state ''proj''))"
    by (metis prod.collapse)
  have len: "length (change_log busy_state) = 12"
    by code_simp
  from verify_recent_changes [OF run] obtain older where
    suffix: "change_log busy_state = older @ v_recent_changes ?r"
    and log: "change_log (snd (verify_changes ?e busy_state ''proj'')) = change_log busy_state"
    by blast
  from suffix have "\<exists>older. change_log busy_state =
           older @ [''MODIFIED: /tmp/proj/c'', ''MODIFIED: /tmp/proj/d'',
                    ''MODIFIED: /tmp/proj/e'', ''MODIFIED: /tmp/proj/f'',
                    ''MODIFIED: /tmp/proj/g'', ''MODIFIED: /tmp/proj/h'',
                    ''MODIFIED: /tmp/proj/i'', ''MODIFIED: /tmp/proj/j'',
                    ''MODIFIED: /tmp/proj/k'', ''MODIFIED: /tmp/proj/l'']"
    by (intro exI [of _ older]) simp
  with out len log show ?thesis
    by (intro conjI)
qed

subsection \<open>Listing an empty snapshot\<close>

text \<open>
  C10. For a registered id whose stored snapshot is empty, list returns the object
  \<^verbatim>\<open>{"error": "No files found in directory"}\<close> as a normal result, raises nothing and
  leaves the state unchanged.
\<close>

theorem list_empty_snapshot:
  assumes "dict_get (dir_db st) d = Some []"
  shows "list_files e st d = (Inr (ErrorObject ''No files found in directory''), st)"
  using assms by (simp add: list_files_def)

theorem list_empty_snapshot_witness:
  "dict_get (dir_db empty_state) ''empty'' = Some []
   \<and> list_files empty_env empty_state ''empty''
       = (Inr (ErrorObject ''No files found in directory''), empty_state)"
proof -
  have h: "dict_get (dir_db empty_state) ''empty'' = Some []"
    by code_simp
  from list_empty_snapshot [OF h, of empty_env] h show ?thesis
    by simp
qed

end
